theory Spec2Isabelle
  imports Main
begin

section \<open>Data model (the two tables of \<^verbatim>\<open>main.py\<close>)\<close>

text \<open>
  The SQLAlchemy models: a row of table \<^verbatim>\<open>authors\<close> has the columns
  \<^verbatim>\<open>id\<close>, \<^verbatim>\<open>name\<close>, \<^verbatim>\<open>email\<close>; a row of table \<^verbatim>\<open>posts\<close> has
  \<^verbatim>\<open>id\<close>, \<^verbatim>\<open>title\<close>, \<^verbatim>\<open>content\<close>, \<^verbatim>\<open>author_id\<close>. The two \<^verbatim>\<open>id\<close> columns are
  written \<open>a_id\<close> and \<open>p_id\<close>. Python integers are unbounded, so ids are \<open>int\<close>.
\<close>

record Author =
  a_id :: int
  name :: string
  email :: string

record Post =
  p_id :: int
  title :: string
  content :: string
  author_id :: int

text \<open>The committed content of the database: both tables, rows in insertion order.\<close>

record store =
  authors :: "Author list"
  posts :: "Post list"

definition empty_store :: store where
  "empty_store = \<lparr>authors = [], posts = []\<rparr>"

subsection \<open>Request and response schemas\<close>

text \<open>
  The Pydantic models, as the handlers receive them: the framework has already rejected a
  body with a missing field or a value of the wrong type.
\<close>

record AuthorCreate =
  ac_name :: string
  ac_email :: string

text \<open>\<^verbatim>\<open>Optional[...] = None\<close>: an omitted field is \<open>None\<close>.\<close>

record AuthorUpdate =
  au_name :: "string option"
  au_email :: "string option"

record PostCreate =
  pc_title :: string
  pc_content :: string
  pc_author_id :: int

record PostUpdate =
  pu_title :: "string option"
  pu_content :: "string option"

text \<open>
  \<^verbatim>\<open>AuthorOut\<close> has exactly the three columns of an \<open>Author\<close> row, so an \<open>Author\<close>
  value stands for it. \<^verbatim>\<open>PostOut\<close> adds the nested, optional author.
\<close>

record PostOut =
  po_id :: int
  po_title :: string
  po_content :: string
  po_author_id :: int
  po_author :: "Author option"

subsection \<open>Errors\<close>

text \<open>
  Every \<^verbatim>\<open>raise HTTPException(status_code=..., detail=...)\<close> of the source is a value
  \<open>HTTPException status detail\<close>. \<open>InvalidRequestError\<close> is what \<^verbatim>\<open>db.refresh\<close>
  raises when the row of the object is no longer in its table. \<open>OverflowError\<close> is what
  the execution of a query raises when an integer parameter does not fit the 64-bit
  \<^verbatim>\<open>INTEGER\<close> of SQLite; no handler catches it, and the request is answered with the
  status 500.
\<close>

datatype error =
  HTTPException (status_code: nat) (detail: string)
| InvalidRequestError
| OverflowError

text \<open>
  A handler takes the committed store and returns the committed store after the
  request together with either the error raised or the value returned. A handler that
  raises before \<^verbatim>\<open>db.commit()\<close> returns the store it was given: the session is
  closed by \<^verbatim>\<open>get_db\<close> and its pending changes are discarded.
\<close>

type_synonym 'a result = "store \<times> (error + 'a)"

section \<open>The persistence gateway\<close>

text \<open>
  Modelled from the spec: the generation of primary keys, done by the database engine
  and not by \<^verbatim>\<open>main.py\<close> ("integer id, generated", "the returned id is unique"). For the
  SQLite table the source configures, a new row gets the largest id of the table plus one,
  and \<open>1\<close> in an empty table.
\<close>

definition next_id :: "int list \<Rightarrow> int" where
  "next_id ids = foldr max ids 0 + 1"

text \<open>
  An integer that can be bound as a parameter of a query: Python integers are unbounded,
  the \<^verbatim>\<open>INTEGER\<close> of SQLite is a signed 64-bit value.
\<close>

definition sqlite_int :: "int \<Rightarrow> bool" where
  "sqlite_int i \<longleftrightarrow> - (2 ^ 63) \<le> i \<and> i < 2 ^ 63"

text \<open>The first row of a table with a given primary key, if there is one.\<close>

definition author_row :: "int \<Rightarrow> store \<Rightarrow> Author option" where
  "author_row i db = find (\<lambda>a. a_id a = i) (authors db)"

definition post_row :: "int \<Rightarrow> store \<Rightarrow> Post option" where
  "post_row i db = find (\<lambda>p. p_id p = i) (posts db)"

text \<open>
  \<^verbatim>\<open>db.query(Author).filter(Author.id == i).first()\<close> with \<open>i\<close> a parameter of the
  request: binding \<open>i\<close> raises when it is out of range.
\<close>

definition author_by_id :: "int \<Rightarrow> store \<Rightarrow> error + Author option" where
  "author_by_id i db = (if sqlite_int i then Inr (author_row i db) else Inl OverflowError)"

text \<open>\<^verbatim>\<open>db.query(Post).filter(Post.id == i).first()\<close>, likewise.\<close>

definition post_by_id :: "int \<Rightarrow> store \<Rightarrow> error + Post option" where
  "post_by_id i db = (if sqlite_int i then Inr (post_row i db) else Inl OverflowError)"

text \<open>\<^verbatim>\<open>db.add(new_author); db.commit()\<close>: the INSERT assigns the primary key.\<close>

definition add_author :: "string \<Rightarrow> string \<Rightarrow> store \<Rightarrow> Author \<times> store" where
  "add_author n e db =
     (let new_author = \<lparr>a_id = next_id (map a_id (authors db)), name = n, email = e\<rparr>
      in (new_author, db\<lparr>authors := authors db @ [new_author]\<rparr>))"

definition add_post :: "string \<Rightarrow> string \<Rightarrow> int \<Rightarrow> store \<Rightarrow> Post \<times> store" where
  "add_post t c a db =
     (let new_post = \<lparr>p_id = next_id (map p_id (posts db)), title = t, content = c,
                      author_id = a\<rparr>
      in (new_post, db\<lparr>posts := posts db @ [new_post]\<rparr>))"

text \<open>
  \<^verbatim>\<open>db.commit()\<close> after attribute assignments on a loaded object: the UPDATE writes
  the object to the row with its primary key.
\<close>

definition commit_author :: "Author \<Rightarrow> store \<Rightarrow> store" where
  "commit_author a db =
     db\<lparr>authors := map (\<lambda>r. if a_id r = a_id a then a else r) (authors db)\<rparr>"

definition commit_post :: "Post \<Rightarrow> store \<Rightarrow> store" where
  "commit_post p db =
     db\<lparr>posts := map (\<lambda>r. if p_id r = p_id p then p else r) (posts db)\<rparr>"

text \<open>
  \<^verbatim>\<open>db.delete(author); db.commit()\<close>. The relationship \<^verbatim>\<open>Author.posts\<close> is declared
  with \<^verbatim>\<open>cascade="all, delete-orphan"\<close>, so the posts of the collection (the rows whose
  \<^verbatim>\<open>author_id\<close> is the author's id) are deleted in the same commit.
\<close>

definition delete_author_cascade :: "Author \<Rightarrow> store \<Rightarrow> store" where
  "delete_author_cascade a db =
     db\<lparr>authors := filter (\<lambda>r. a_id r \<noteq> a_id a) (authors db),
        posts := filter (\<lambda>p. author_id p \<noteq> a_id a) (posts db)\<rparr>"

definition delete_post_row :: "Post \<Rightarrow> store \<Rightarrow> store" where
  "delete_post_row p db = db\<lparr>posts := filter (\<lambda>r. p_id r \<noteq> p_id p) (posts db)\<rparr>"

text \<open>
  \<^verbatim>\<open>db.refresh(obj)\<close>: reload the object from its row, by the primary key the
  database gave it.
\<close>

definition refresh_author :: "Author \<Rightarrow> store \<Rightarrow> error + Author" where
  "refresh_author a db =
     (case author_row (a_id a) db of None \<Rightarrow> Inl InvalidRequestError | Some r \<Rightarrow> Inr r)"

definition refresh_post :: "Post \<Rightarrow> store \<Rightarrow> error + Post" where
  "refresh_post p db =
     (case post_row (p_id p) db of None \<Rightarrow> Inl InvalidRequestError | Some r \<Rightarrow> Inr r)"

text \<open>
  Serialising a post through \<^verbatim>\<open>response_model=PostOut\<close> (\<^verbatim>\<open>orm_mode\<close>): the columns
  of the row, and the relationship \<^verbatim>\<open>Post.author\<close>, which is the author row whose id is
  the post's \<^verbatim>\<open>author_id\<close> (joined or lazily loaded), or \<^verbatim>\<open>None\<close>.
\<close>

definition post_out :: "store \<Rightarrow> Post \<Rightarrow> PostOut" where
  "post_out db p =
     \<lparr>po_id = p_id p, po_title = title p, po_content = content p,
      po_author_id = author_id p, po_author = author_row (author_id p) db\<rparr>"

section \<open>Author endpoints\<close>

definition create_author :: "AuthorCreate \<Rightarrow> store \<Rightarrow> Author result" where
  "create_author author db =
     (case find (\<lambda>a. email a = ac_email author) (authors db) of
        Some existing \<Rightarrow> (db, Inl (HTTPException 400 ''Email already in use''))
      | None \<Rightarrow>
          (let (new_author, db') = add_author (ac_name author) (ac_email author) db
           in (db', refresh_author new_author db')))"

definition list_authors :: "store \<Rightarrow> (Author list) result" where
  "list_authors db = (db, Inr (authors db))"

definition get_author :: "int \<Rightarrow> store \<Rightarrow> Author result" where
  "get_author aid db =
     (case author_by_id aid db of
        Inl err \<Rightarrow> (db, Inl err)
      | Inr None \<Rightarrow> (db, Inl (HTTPException 404 ''Author not found''))
      | Inr (Some author) \<Rightarrow> (db, Inr author))"

definition update_author :: "int \<Rightarrow> AuthorUpdate \<Rightarrow> store \<Rightarrow> Author result" where
  "update_author aid data db =
     (case author_by_id aid db of
        Inl err \<Rightarrow> (db, Inl err)
      | Inr None \<Rightarrow> (db, Inl (HTTPException 404 ''Author not found''))
      | Inr (Some author) \<Rightarrow>
          (let author1 = (case au_name data of None \<Rightarrow> author
                          | Some n \<Rightarrow> author\<lparr>name := n\<rparr>)
           in case au_email data of
                None \<Rightarrow>
                  (let db' = commit_author author1 db
                   in (db', refresh_author author1 db'))
              | Some e \<Rightarrow>
                  (case find (\<lambda>a. email a = e \<and> a_id a \<noteq> aid) (authors db) of
                     Some email_owner \<Rightarrow>
                       (db, Inl (HTTPException 400 ''Email already in use''))
                   | None \<Rightarrow>
                       (let author2 = author1\<lparr>email := e\<rparr>;
                            db' = commit_author author2 db
                        in (db', refresh_author author2 db')))))"

definition delete_author :: "int \<Rightarrow> store \<Rightarrow> string result" where
  "delete_author aid db =
     (case author_by_id aid db of
        Inl err \<Rightarrow> (db, Inl err)
      | Inr None \<Rightarrow> (db, Inl (HTTPException 404 ''Author not found''))
      | Inr (Some author) \<Rightarrow>
          (delete_author_cascade author db,
           Inr ''Author and their posts deleted successfully''))"

section \<open>Post endpoints\<close>

definition create_post :: "PostCreate \<Rightarrow> store \<Rightarrow> PostOut result" where
  "create_post post db =
     (case author_by_id (pc_author_id post) db of
        Inl err \<Rightarrow> (db, Inl err)
      | Inr None \<Rightarrow> (db, Inl (HTTPException 400 ''Author does not exist''))
      | Inr (Some author) \<Rightarrow>
          (let (new_post, db') =
                 add_post (pc_title post) (pc_content post) (pc_author_id post) db
           in (db', map_sum id (post_out db') (refresh_post new_post db'))))"

definition list_posts :: "int option \<Rightarrow> store \<Rightarrow> (PostOut list) result" where
  "list_posts aid db =
     (case aid of
        None \<Rightarrow> (db, Inr (map (post_out db) (posts db)))
      | Some x \<Rightarrow>
          if sqlite_int x
          then (db, Inr (map (post_out db) (filter (\<lambda>p. author_id p = x) (posts db))))
          else (db, Inl OverflowError))"

definition get_post :: "int \<Rightarrow> store \<Rightarrow> PostOut result" where
  "get_post pid db =
     (case post_by_id pid db of
        Inl err \<Rightarrow> (db, Inl err)
      | Inr None \<Rightarrow> (db, Inl (HTTPException 404 ''Post not found''))
      | Inr (Some post) \<Rightarrow> (db, Inr (post_out db post)))"

definition update_post :: "int \<Rightarrow> PostUpdate \<Rightarrow> store \<Rightarrow> PostOut result" where
  "update_post pid data db =
     (case post_by_id pid db of
        Inl err \<Rightarrow> (db, Inl err)
      | Inr None \<Rightarrow> (db, Inl (HTTPException 404 ''Post not found''))
      | Inr (Some post) \<Rightarrow>
          (let post1 = (case pu_title data of None \<Rightarrow> post
                        | Some t \<Rightarrow> post\<lparr>title := t\<rparr>);
               post2 = (case pu_content data of None \<Rightarrow> post1
                        | Some c \<Rightarrow> post1\<lparr>content := c\<rparr>);
               db' = commit_post post2 db
           in (db', map_sum id (post_out db') (refresh_post post2 db'))))"

definition delete_post :: "int \<Rightarrow> store \<Rightarrow> string result" where
  "delete_post pid db =
     (case post_by_id pid db of
        Inl err \<Rightarrow> (db, Inl err)
      | Inr None \<Rightarrow> (db, Inl (HTTPException 404 ''Post not found''))
      | Inr (Some post) \<Rightarrow> (delete_post_row post db, Inr ''Post deleted successfully''))"

definition get_author_posts :: "int \<Rightarrow> store \<Rightarrow> (PostOut list) result" where
  "get_author_posts aid db =
     (case author_by_id aid db of
        Inl err \<Rightarrow> (db, Inl err)
      | Inr None \<Rightarrow> (db, Inl (HTTPException 404 ''Author not found''))
      | Inr (Some author) \<Rightarrow>
          (db, Inr (map (post_out db) (filter (\<lambda>p. author_id p = aid) (posts db)))))"

section \<open>The service as a transition system\<close>

datatype request =
  CreateAuthor AuthorCreate
| ListAuthors
| GetAuthor int
| UpdateAuthor int AuthorUpdate
| DeleteAuthor int
| CreatePost PostCreate
| ListPosts "int option"
| GetPost int
| UpdatePost int PostUpdate
| DeletePost int
| ListPostsForAuthor int

text \<open>The store a request leaves behind, whether it succeeds or fails.\<close>

fun step :: "request \<Rightarrow> store \<Rightarrow> store" where
  "step (CreateAuthor a) db = fst (create_author a db)"
| "step ListAuthors db = fst (list_authors db)"
| "step (GetAuthor i) db = fst (get_author i db)"
| "step (UpdateAuthor i d) db = fst (update_author i d db)"
| "step (DeleteAuthor i) db = fst (delete_author i db)"
| "step (CreatePost p) db = fst (create_post p db)"
| "step (ListPosts f) db = fst (list_posts f db)"
| "step (GetPost i) db = fst (get_post i db)"
| "step (UpdatePost i d) db = fst (update_post i d db)"
| "step (DeletePost i) db = fst (delete_post i db)"
| "step (ListPostsForAuthor i) db = fst (get_author_posts i db)"

text \<open>Serving a sequence of requests, one after the other.\<close>

definition run :: "request list \<Rightarrow> store \<Rightarrow> store" where
  "run rs db = fold step rs db"

subsection \<open>The constraints of the schema\<close>

text \<open>Every post's \<^verbatim>\<open>author_id\<close> is the id of a stored author.\<close>

definition fk_ok :: "store \<Rightarrow> bool" where
  "fk_ok db \<longleftrightarrow> (\<forall>p \<in> set (posts db). \<exists>a \<in> set (authors db). a_id a = author_id p)"

text \<open>Primary keys and the unique e-mail column, with the foreign key.\<close>

definition wf_store :: "store \<Rightarrow> bool" where
  "wf_store db \<longleftrightarrow>
     distinct (map a_id (authors db)) \<and> distinct (map p_id (posts db)) \<and>
     distinct (map email (authors db)) \<and> fk_ok db"

subsection \<open>The kinds of failure\<close>

text \<open>
  The three kinds of client failure, and the exceptions the handlers raise for each:
  a missing author or post (\<^verbatim>\<open>get_author\<close>, \<^verbatim>\<open>update_author\<close>, \<^verbatim>\<open>delete_author\<close>,
  \<^verbatim>\<open>get_author_posts\<close>; \<^verbatim>\<open>get_post\<close>, \<^verbatim>\<open>update_post\<close>, \<^verbatim>\<open>delete_post\<close>), an e-mail
  already taken (\<^verbatim>\<open>create_author\<close>, \<^verbatim>\<open>update_author\<close>), and a post whose author does
  not exist (\<^verbatim>\<open>create_post\<close>).
\<close>

datatype failure_kind = NotFound | Conflict | ValidationError

fun raised_as :: "failure_kind \<Rightarrow> error list" where
  "raised_as NotFound =
     [HTTPException 404 ''Author not found'', HTTPException 404 ''Post not found'']"
| "raised_as Conflict = [HTTPException 400 ''Email already in use'']"
| "raised_as ValidationError = [HTTPException 400 ''Author does not exist'']"

subsection \<open>Non-empty names and titles\<close>

definition text_nonempty :: "store \<Rightarrow> bool" where
  "text_nonempty db \<longleftrightarrow>
     (\<forall>a \<in> set (authors db). name a \<noteq> []) \<and> (\<forall>p \<in> set (posts db). title p \<noteq> [])"

text \<open>A request that supplies no empty name and no empty title.\<close>

fun request_text_nonempty :: "request \<Rightarrow> bool" where
  "request_text_nonempty (CreateAuthor a) = (ac_name a \<noteq> [])"
| "request_text_nonempty (UpdateAuthor i d) = (au_name d \<noteq> Some [])"
| "request_text_nonempty (CreatePost p) = (pc_title p \<noteq> [])"
| "request_text_nonempty (UpdatePost i d) = (pu_title d \<noteq> Some [])"
| "request_text_nonempty _ = True"

section \<open>Lemmas on the gateway\<close>

lemma foldr_max_ge: "i \<in> set ids \<Longrightarrow> i \<le> foldr max ids (0::int)"
  by (induction ids) auto

lemma next_id_fresh: "next_id ids \<notin> set ids"
proof
  assume "next_id ids \<in> set ids"
  then have "next_id ids \<le> foldr max ids 0" by (rule foldr_max_ge)
  then show False by (simp add: next_id_def)
qed

lemma find_append_fresh:
  "\<forall>x \<in> set xs. \<not> P x \<Longrightarrow> P y \<Longrightarrow> find P (xs @ [y]) = Some y"
  by (induction xs) auto

lemma find_map_replace:
  "find (\<lambda>r. k r = i) xs = Some a \<Longrightarrow> k b = i \<Longrightarrow>
   find (\<lambda>r. k r = i) (map (\<lambda>r. if k r = k b then b else r) xs) = Some b"
  by (induction xs) (auto split: if_splits)

lemma find_append_fresh_key:
  "k y \<notin> k ` set xs \<Longrightarrow> find (\<lambda>r. k r = k y) (xs @ [y]) = Some y"
  by (induction xs) auto

lemma refresh_added_author:
  "add_author n e db = (a, db') \<Longrightarrow> refresh_author a db' = Inr a"
  using next_id_fresh [of "map a_id (authors db)"]
    find_append_fresh_key [of a_id "\<lparr>a_id = next_id (map a_id (authors db)), name = n, email = e\<rparr>" "authors db"]
  by (auto simp: add_author_def refresh_author_def author_row_def Let_def)

lemma refresh_added_post:
  "add_post t c x db = (p, db') \<Longrightarrow> refresh_post p db' = Inr p"
  using next_id_fresh [of "map p_id (posts db)"]
    find_append_fresh_key [of p_id "\<lparr>p_id = next_id (map p_id (posts db)), title = t, content = c, author_id = x\<rparr>" "posts db"]
  by (auto simp: add_post_def refresh_post_def post_row_def Let_def)

lemma refresh_committed_author:
  "author_by_id i db = Inr (Some a) \<Longrightarrow> a_id b = i \<Longrightarrow> refresh_author b (commit_author b db) = Inr b"
  using find_map_replace [of a_id i "authors db" a b]
  by (simp add: refresh_author_def commit_author_def author_by_id_def author_row_def split: if_splits)

lemma refresh_committed_post:
  "post_by_id i db = Inr (Some p) \<Longrightarrow> p_id q = i \<Longrightarrow> refresh_post q (commit_post q db) = Inr q"
  using find_map_replace [of p_id i "posts db" p q]
  by (simp add: refresh_post_def commit_post_def post_by_id_def post_row_def split: if_splits)

lemma author_by_id_Some: "author_by_id i db = Inr (Some a) \<Longrightarrow> a \<in> set (authors db) \<and> a_id a = i"
  by (auto simp: author_by_id_def author_row_def find_Some_iff split: if_splits)

lemma post_by_id_Some: "post_by_id i db = Inr (Some p) \<Longrightarrow> p \<in> set (posts db) \<and> p_id p = i"
  by (auto simp: post_by_id_def post_row_def find_Some_iff split: if_splits)



text \<open>
  The three outcomes of a lookup by a parameter of the request. The lookup finds a row
  exactly when the parameter is in range and the table has a row with that key.
\<close>

lemma author_by_id_cases:
  obtains (Overflow) "author_by_id i db = Inl OverflowError"
  | (None) "author_by_id i db = Inr None"
  | (Some) a where "author_by_id i db = Inr (Some a)"
  by (cases "sqlite_int i"; cases "author_row i db") (auto simp: author_by_id_def)

lemma post_by_id_cases:
  obtains (Overflow) "post_by_id i db = Inl OverflowError"
  | (None) "post_by_id i db = Inr None"
  | (Some) p where "post_by_id i db = Inr (Some p)"
  by (cases "sqlite_int i"; cases "post_row i db") (auto simp: post_by_id_def)

lemma author_by_id_Some_iff:
  "author_by_id i db = Inr (Some a) \<longleftrightarrow> sqlite_int i \<and> author_row i db = Some a"
  by (simp add: author_by_id_def)

lemma post_by_id_Some_iff:
  "post_by_id i db = Inr (Some p) \<longleftrightarrow> sqlite_int i \<and> post_row i db = Some p"
  by (simp add: post_by_id_def)

lemma author_by_id_in_range: "author_by_id i db = Inr r \<Longrightarrow> sqlite_int i"
  by (simp add: author_by_id_def split: if_splits)

lemma post_by_id_in_range: "post_by_id i db = Inr r \<Longrightarrow> sqlite_int i"
  by (simp add: post_by_id_def split: if_splits)


lemma post_by_id_row: "post_by_id i db = Inr r \<Longrightarrow> post_row i db = r"
  by (simp add: post_by_id_def split: if_splits)

text \<open>What each handler does on its success path, with the refresh resolved.\<close>

lemma create_author_ok:
  "find (\<lambda>a. email a = ac_email author) (authors db) = None \<Longrightarrow>
   create_author author db =
     (snd (add_author (ac_name author) (ac_email author) db),
      Inr (fst (add_author (ac_name author) (ac_email author) db)))"
  using refresh_added_author [of "ac_name author" "ac_email author" db]
  by (auto simp: create_author_def split: prod.splits)

lemma create_post_ok:
  "author_by_id (pc_author_id post) db = Inr (Some a) \<Longrightarrow>
   create_post post db =
     (snd (add_post (pc_title post) (pc_content post) (pc_author_id post) db),
      Inr (post_out (snd (add_post (pc_title post) (pc_content post) (pc_author_id post) db))
                    (fst (add_post (pc_title post) (pc_content post) (pc_author_id post) db))))"
  using refresh_added_post [of "pc_title post" "pc_content post" "pc_author_id post" db]
  by (auto simp: create_post_def split: prod.splits)

lemma update_author_ok:
  assumes "author_by_id i db = Inr (Some a)"
    and "\<And>e. au_email data = Some e \<Longrightarrow>
           find (\<lambda>r. email r = e \<and> a_id r \<noteq> i) (authors db) = None"
    and "b = a\<lparr>name := (case au_name data of None \<Rightarrow> name a | Some n \<Rightarrow> n),
                email := (case au_email data of None \<Rightarrow> email a | Some e \<Rightarrow> e)\<rparr>"
  shows "update_author i data db = (commit_author b db, Inr b)"
proof -
  have id_b: "a_id b = i"
    using assms(1,3) author_by_id_Some [of i db a] by simp
  have r: "refresh_author b (commit_author b db) = Inr b"
    using assms(1) id_b by (rule refresh_committed_author)
  show ?thesis
  proof (cases "au_email data")
    case None
    then show ?thesis
      using assms(1,3) r by (simp add: update_author_def Let_def split: option.splits)
  next
    case (Some e)
    then show ?thesis
      using assms r by (simp add: update_author_def Let_def split: option.splits)
  qed
qed

lemma update_post_ok:
  assumes "post_by_id i db = Inr (Some p)"
    and "q = p\<lparr>title := (case pu_title data of None \<Rightarrow> title p | Some t \<Rightarrow> t),
                content := (case pu_content data of None \<Rightarrow> content p | Some c \<Rightarrow> c)\<rparr>"
  shows "update_post i data db = (commit_post q db, Inr (post_out (commit_post q db) q))"
proof -
  have id_q: "p_id q = i"
    using assms post_by_id_Some [of i db p] by simp
  have r: "refresh_post q (commit_post q db) = Inr q"
    using assms(1) id_q by (rule refresh_committed_post)
  show ?thesis
    using assms r by (simp add: update_post_def Let_def split: option.splits)
qed

subsection \<open>The constraints are kept by every request\<close>

lemma map_key_replace:
  "k b = i \<Longrightarrow> map k (map (\<lambda>r. if k r = i then b else r) xs) = map k xs"
  by (induction xs) auto

lemma distinct_email_replace:
  assumes "distinct (map email xs)"
    and "\<forall>r \<in> set xs. a_id r \<noteq> i \<longrightarrow> email r \<noteq> email b"
    and "distinct (map a_id xs)"
  shows "distinct (map email (map (\<lambda>r. if a_id r = i then b else r) xs))"
proof -
  define g where "g = (\<lambda>r. if a_id r = i then b else r)"
  have "distinct (map email (map g xs))"
    using assms
  proof (induction xs)
    case Nil
    then show ?case by simp
  next
    case (Cons x xs)
    show ?case
    proof (cases "a_id x = i")
      case True
      have "a_id x \<notin> a_id ` set xs" using Cons.prems(3) by simp
      then have no: "\<forall>r \<in> set xs. a_id r \<noteq> i" using True by (metis imageI)
      then have same: "map g xs = xs"
        by (induction xs) (auto simp: g_def)
      have gx: "g x = b" using True by (simp add: g_def)
      have "email b \<notin> email ` set xs"
        using Cons.prems(2) no by auto
      then show ?thesis using Cons.prems(1) by (simp add: same gx)
    next
      case False
      have gx: "g x = x" using False by (simp add: g_def)
      have sub: "set (map g xs) \<subseteq> insert b (set xs)" by (auto simp: g_def)
      have "email x \<noteq> email b" using Cons.prems(2) False by simp
      moreover have "email x \<notin> email ` set xs" using Cons.prems(1) by simp
      ultimately have "email x \<notin> email ` insert b (set xs)" by simp
      then have nin: "email x \<notin> email ` set (map g xs)" using sub by blast
      have ih: "distinct (map email (map g xs))"
        using Cons.IH Cons.prems by simp
      have "map email (map g (x # xs)) = email x # map email (map g xs)"
        by (simp add: gx)
      moreover have "email x \<notin> set (map email (map g xs))"
        using nin by (simp add: image_image)
      ultimately show ?thesis using ih by (metis distinct.simps(2))
    qed
  qed
  then show ?thesis by (simp only: g_def)
qed

lemma wf_create_author: "wf_store db \<Longrightarrow> wf_store (fst (create_author author db))"
proof (cases "find (\<lambda>a. email a = ac_email author) (authors db)")
  case None
  assume wf: "wf_store db"
  have fresh: "next_id (map a_id (authors db)) \<notin> a_id ` set (authors db)"
    using next_id_fresh [of "map a_id (authors db)"] by simp
  have "ac_email author \<notin> email ` set (authors db)"
    using None by (auto simp: find_None_iff)
  then show ?thesis
    using wf fresh create_author_ok [OF None]
    by (auto simp: wf_store_def add_author_def Let_def fk_ok_def)
next
  case (Some a)
  assume "wf_store db"
  then show ?thesis using Some by (simp add: create_author_def)
qed

lemma fk_ok_iff: "fk_ok db \<longleftrightarrow> author_id ` set (posts db) \<subseteq> a_id ` set (authors db)"
  unfolding fk_ok_def by (rule iffI; force simp: image_iff subset_iff)

lemma wf_commit_author:
  assumes "wf_store db" and "a_id b = i"
    and "\<forall>r \<in> set (authors db). a_id r \<noteq> i \<longrightarrow> email r \<noteq> email b"
  shows "wf_store (commit_author b db)"
proof -
  have po: "posts (commit_author b db) = posts db" by (simp add: commit_author_def)
  have ids: "map a_id (authors (commit_author b db)) = map a_id (authors db)"
    using map_key_replace [of a_id b i "authors db"] assms(2) by (simp add: commit_author_def)
  have em: "distinct (map email (authors (commit_author b db)))"
    using distinct_email_replace [of "authors db" i b] assms
    by (simp add: commit_author_def wf_store_def)
  have d: "distinct (map a_id (authors (commit_author b db)))"
    unfolding ids using assms(1) by (simp add: wf_store_def)
  have "set (map a_id (authors (commit_author b db))) = set (map a_id (authors db))"
    unfolding ids ..
  then have img: "a_id ` set (authors (commit_author b db)) = a_id ` set (authors db)"
    by (simp only: set_map)
  have fk: "fk_ok (commit_author b db)"
    unfolding fk_ok_iff img po using assms(1) by (simp add: wf_store_def fk_ok_iff)
  show ?thesis
    unfolding wf_store_def po using assms(1) d em fk by (simp add: wf_store_def)
qed

lemma wf_update_author: "wf_store db \<Longrightarrow> wf_store (fst (update_author i data db))"
proof -
  assume wf: "wf_store db"
  show ?thesis
  proof (cases rule: author_by_id_cases [of i db])
    case Overflow
    then show ?thesis using wf by (simp add: update_author_def)
  next
    case None
    then show ?thesis using wf by (simp add: update_author_def)
  next
    case (Some a)
    note a = author_by_id_Some [OF Some]
    show ?thesis
    proof (cases "\<exists>e. au_email data = Some e \<and>
                   find (\<lambda>r. email r = e \<and> a_id r \<noteq> i) (authors db) \<noteq> None")
      case True
      then show ?thesis using wf Some
        by (auto simp: update_author_def Let_def split: option.splits)
    next
      case False
      define b where "b = a\<lparr>name := (case au_name data of None \<Rightarrow> name a | Some n \<Rightarrow> n),
                email := (case au_email data of None \<Rightarrow> email a | Some e \<Rightarrow> e)\<rparr>"
      have eq: "update_author i data db = (commit_author b db, Inr b)"
        using Some False by (intro update_author_ok [where a = a]) (auto simp: b_def)
      have idb: "a_id b = i" using a by (simp add: b_def)
      have other: "\<forall>r \<in> set (authors db). a_id r \<noteq> i \<longrightarrow> email r \<noteq> email b"
      proof (cases "au_email data")
        case None
        have "\<And>r. r \<in> set (authors db) \<Longrightarrow> email r = email a \<Longrightarrow> r = a"
          using wf a by (auto simp: wf_store_def distinct_map inj_on_def)
        then show ?thesis using None a by (auto simp: b_def)
      next
        case (Some e)
        then have "find (\<lambda>r. email r = e \<and> a_id r \<noteq> i) (authors db) = None"
          using False by simp
        then show ?thesis using Some by (auto simp: b_def find_None_iff)
      qed
      show ?thesis using eq wf_commit_author [OF wf idb other] by simp
    qed
  qed
qed

lemma wf_delete_author: "wf_store db \<Longrightarrow> wf_store (fst (delete_author i db))"
proof (cases rule: author_by_id_cases [of i db])
  case Overflow
  assume "wf_store db"
  then show ?thesis using Overflow by (simp add: delete_author_def)
next
  case None
  assume "wf_store db"
  then show ?thesis using None by (simp add: delete_author_def)
next
  case (Some a)
  assume wf: "wf_store db"
  have "fk_ok (delete_author_cascade a db)"
    unfolding fk_ok_def
  proof
    fix p assume "p \<in> set (posts (delete_author_cascade a db))"
    then have p: "p \<in> set (posts db)" "author_id p \<noteq> a_id a"
      by (simp_all add: delete_author_cascade_def)
    then obtain r where "r \<in> set (authors db)" "a_id r = author_id p"
      using wf unfolding wf_store_def fk_ok_def by blast
    then have "r \<in> set (authors (delete_author_cascade a db))"
      using p by (simp add: delete_author_cascade_def)
    then show "\<exists>r \<in> set (authors (delete_author_cascade a db)). a_id r = author_id p"
      using \<open>a_id r = author_id p\<close> by blast
  qed
  then show ?thesis
    using wf Some by (simp add: delete_author_def delete_author_cascade_def wf_store_def distinct_map_filter)
qed

lemma wf_create_post: "wf_store db \<Longrightarrow> wf_store (fst (create_post post db))"
proof (cases rule: author_by_id_cases [of "pc_author_id post" db])
  case Overflow
  assume "wf_store db"
  then show ?thesis using Overflow by (simp add: create_post_def)
next
  case None
  assume "wf_store db"
  then show ?thesis using None by (simp add: create_post_def)
next
  case (Some a)
  assume wf: "wf_store db"
  have fresh: "next_id (map p_id (posts db)) \<notin> p_id ` set (posts db)"
    using next_id_fresh [of "map p_id (posts db)"] by simp
  show ?thesis
    using wf fresh create_post_ok [OF Some] author_by_id_Some [OF Some]
    by (auto simp: wf_store_def add_post_def Let_def fk_ok_def)
qed

lemma wf_update_post: "wf_store db \<Longrightarrow> wf_store (fst (update_post i data db))"
proof (cases rule: post_by_id_cases [of i db])
  case Overflow
  assume "wf_store db"
  then show ?thesis using Overflow by (simp add: update_post_def)
next
  case None
  assume "wf_store db"
  then show ?thesis using None by (simp add: update_post_def)
next
  case (Some p)
  assume wf: "wf_store db"
  define q where "q = p\<lparr>title := (case pu_title data of None \<Rightarrow> title p | Some t \<Rightarrow> t),
                content := (case pu_content data of None \<Rightarrow> content p | Some c \<Rightarrow> c)\<rparr>"
  note p = post_by_id_Some [OF Some]
  have eq: "fst (update_post i data db) = commit_post q db"
    using update_post_ok [OF Some q_def] by simp
  have idq: "p_id q = i" "author_id q = author_id p" using p by (simp_all add: q_def)
  have au: "authors (commit_post q db) = authors db" by (simp add: commit_post_def)
  have ids: "map p_id (posts (commit_post q db)) = map p_id (posts db)"
    using map_key_replace [of p_id q i "posts db"] idq by (simp add: commit_post_def)
  have d: "distinct (map p_id (posts (commit_post q db)))"
    unfolding ids using wf by (simp add: wf_store_def)
  have "author_id ` set (posts (commit_post q db)) \<subseteq> author_id ` set (posts db)"
    using p idq by (auto simp: commit_post_def)
  then have fk: "fk_ok (commit_post q db)"
    unfolding fk_ok_iff au using wf by (auto simp: wf_store_def fk_ok_iff)
  show ?thesis
    unfolding eq wf_store_def au using wf d fk by (simp add: wf_store_def)
qed

lemma wf_delete_post: "wf_store db \<Longrightarrow> wf_store (fst (delete_post i db))"
proof (cases rule: post_by_id_cases [of i db])
  case Overflow
  assume "wf_store db"
  then show ?thesis using Overflow by (simp add: delete_post_def)
next
  case None
  assume "wf_store db"
  then show ?thesis using None by (simp add: delete_post_def)
next
  case (Some p)
  assume wf: "wf_store db"
  have "fk_ok (delete_post_row p db)"
    using wf unfolding wf_store_def fk_ok_def delete_post_row_def by auto
  then show ?thesis
    using wf Some by (simp add: delete_post_def delete_post_row_def wf_store_def distinct_map_filter)
qed

lemma read_only:
  "fst (list_authors db) = db" "fst (get_author i db) = db" "fst (list_posts f db) = db"
  "fst (get_post i db) = db" "fst (get_author_posts i db) = db"
  by (simp_all add: list_authors_def get_author_def list_posts_def get_post_def
      get_author_posts_def Let_def split: option.splits sum.splits)

lemma wf_step: "wf_store db \<Longrightarrow> wf_store (step r db)"
  by (cases r)
    (simp_all add: read_only wf_create_author wf_update_author wf_delete_author
      wf_create_post wf_update_post wf_delete_post)

lemma wf_run: "wf_store db \<Longrightarrow> wf_store (run rs db)"
  unfolding run_def by (induction rs arbitrary: db) (simp_all add: wf_step)

lemma wf_empty: "wf_store empty_store"
  by (simp add: wf_store_def fk_ok_def empty_store_def)

text \<open>Every store the service can reach satisfies the constraints of the schema.\<close>

lemma wf_reachable: "wf_store (run rs empty_store)"
  using wf_empty by (rule wf_run)




lemma update_author_conflict:
  "author_by_id i db = Inr (Some a) \<Longrightarrow> au_email data = Some e \<Longrightarrow>
   \<exists>b \<in> set (authors db). email b = e \<and> a_id b \<noteq> i \<Longrightarrow>
   update_author i data db = (db, Inl (HTTPException 400 ''Email already in use''))"
proof -
  assume a: "author_by_id i db = Inr (Some a)" and e: "au_email data = Some e"
    and "\<exists>b \<in> set (authors db). email b = e \<and> a_id b \<noteq> i"
  then have "find (\<lambda>r. email r = e \<and> a_id r \<noteq> i) (authors db) \<noteq> None"
    by (auto simp: find_None_iff)
  then obtain b where "find (\<lambda>r. email r = e \<and> a_id r \<noteq> i) (authors db) = Some b"
    by blast
  then show ?thesis using a e by (simp add: update_author_def Let_def)
qed

subsection \<open>The exceptions the handlers raise\<close>

lemma handlers_raise:
  "snd (create_author author db) = Inl e \<Longrightarrow> e \<in> set (raised_as Conflict)"
  "snd (get_author i db) = Inl e \<Longrightarrow>
     (if sqlite_int i then e \<in> set (raised_as NotFound) else e = OverflowError)"
  "snd (update_author i data db) = Inl e \<Longrightarrow>
     (if sqlite_int i then e \<in> set (raised_as NotFound) \<union> set (raised_as Conflict)
      else e = OverflowError)"
  "snd (delete_author i db) = Inl e \<Longrightarrow>
     (if sqlite_int i then e \<in> set (raised_as NotFound) else e = OverflowError)"
  "snd (create_post post db) = Inl e \<Longrightarrow>
     (if sqlite_int (pc_author_id post) then e \<in> set (raised_as ValidationError)
      else e = OverflowError)"
  "snd (list_posts f db) = Inl e \<Longrightarrow> e = OverflowError \<and> (\<exists>x. f = Some x \<and> \<not> sqlite_int x)"
  "snd (get_post k db) = Inl e \<Longrightarrow>
     (if sqlite_int k then e \<in> set (raised_as NotFound) else e = OverflowError)"
  "snd (update_post k pdata db) = Inl e \<Longrightarrow>
     (if sqlite_int k then e \<in> set (raised_as NotFound) else e = OverflowError)"
  "snd (delete_post k db) = Inl e \<Longrightarrow>
     (if sqlite_int k then e \<in> set (raised_as NotFound) else e = OverflowError)"
  "snd (get_author_posts i db) = Inl e \<Longrightarrow>
     (if sqlite_int i then e \<in> set (raised_as NotFound) else e = OverflowError)"
proof -
  show "snd (create_author author db) = Inl e \<Longrightarrow> e \<in> set (raised_as Conflict)"
    using create_author_ok [of author db]
    by (cases "find (\<lambda>a. email a = ac_email author) (authors db)")
      (auto simp: create_author_def)
  show "snd (get_author i db) = Inl e \<Longrightarrow>
     (if sqlite_int i then e \<in> set (raised_as NotFound) else e = OverflowError)"
    by (auto simp: get_author_def author_by_id_def split: option.splits)
  show "snd (update_author i data db) = Inl e \<Longrightarrow>
     (if sqlite_int i then e \<in> set (raised_as NotFound) \<union> set (raised_as Conflict)
      else e = OverflowError)"
  proof -
    assume u: "snd (update_author i data db) = Inl e"
    show ?thesis
    proof (cases rule: author_by_id_cases [of i db])
      case Overflow
      then show ?thesis
        using u by (simp add: update_author_def author_by_id_def split: if_splits)
    next
      case None
      then show ?thesis
        using u author_by_id_in_range [OF None] by (simp add: update_author_def)
    next
      case (Some a)
      note in_range = author_by_id_in_range [OF Some]
      show ?thesis
      proof (cases "\<exists>x. au_email data = Some x \<and>
                  (\<exists>b \<in> set (authors db). email b = x \<and> a_id b \<noteq> i)")
        case True
        then obtain x where "au_email data = Some x"
          "\<exists>b \<in> set (authors db). email b = x \<and> a_id b \<noteq> i" by blast
        then have "update_author i data db = (db, Inl (HTTPException 400 ''Email already in use''))"
          using Some by (intro update_author_conflict)
        then show ?thesis using u in_range by simp
      next
        case False
        then have "find (\<lambda>r. email r = x \<and> a_id r \<noteq> i) (authors db) = None"
          if "au_email data = Some x" for x
          using that by (auto simp: find_None_iff)
        then have "\<exists>b. update_author i data db = (commit_author b db, Inr b)"
          using Some update_author_ok [where a = a and i = i and db = db and data = data]
          by blast
        then show ?thesis using u by auto
      qed
    qed
  qed
  show "snd (delete_author i db) = Inl e \<Longrightarrow>
     (if sqlite_int i then e \<in> set (raised_as NotFound) else e = OverflowError)"
    by (auto simp: delete_author_def author_by_id_def split: option.splits)
  show "snd (create_post post db) = Inl e \<Longrightarrow>
     (if sqlite_int (pc_author_id post) then e \<in> set (raised_as ValidationError)
      else e = OverflowError)"
  proof (cases rule: author_by_id_cases [of "pc_author_id post" db])
    case Overflow
    assume "snd (create_post post db) = Inl e"
    then show ?thesis
      using Overflow by (simp add: create_post_def author_by_id_def split: if_splits)
  next
    case None
    assume "snd (create_post post db) = Inl e"
    then show ?thesis
      using None author_by_id_in_range [OF None] by (simp add: create_post_def)
  next
    case (Some a)
    assume "snd (create_post post db) = Inl e"
    then show ?thesis using create_post_ok [OF Some] by simp
  qed
  show "snd (list_posts f db) = Inl e \<Longrightarrow>
     e = OverflowError \<and> (\<exists>x. f = Some x \<and> \<not> sqlite_int x)"
    by (auto simp: list_posts_def split: option.splits if_splits)
  show "snd (get_post k db) = Inl e \<Longrightarrow>
     (if sqlite_int k then e \<in> set (raised_as NotFound) else e = OverflowError)"
    by (auto simp: get_post_def post_by_id_def split: option.splits)
  show "snd (update_post k pdata db) = Inl e \<Longrightarrow>
     (if sqlite_int k then e \<in> set (raised_as NotFound) else e = OverflowError)"
  proof (cases rule: post_by_id_cases [of k db])
    case Overflow
    assume "snd (update_post k pdata db) = Inl e"
    then show ?thesis
      using Overflow by (simp add: update_post_def post_by_id_def split: if_splits)
  next
    case None
    assume "snd (update_post k pdata db) = Inl e"
    then show ?thesis
      using None post_by_id_in_range [OF None] by (simp add: update_post_def)
  next
    case (Some p)
    assume "snd (update_post k pdata db) = Inl e"
    then show ?thesis using update_post_ok [OF Some refl] by simp
  qed
  show "snd (delete_post k db) = Inl e \<Longrightarrow>
     (if sqlite_int k then e \<in> set (raised_as NotFound) else e = OverflowError)"
    by (auto simp: delete_post_def post_by_id_def split: option.splits)
  show "snd (get_author_posts i db) = Inl e \<Longrightarrow>
     (if sqlite_int i then e \<in> set (raised_as NotFound) else e = OverflowError)"
    by (auto simp: get_author_posts_def author_by_id_def split: option.splits)
qed

subsection \<open>Names and titles\<close>

lemma text_nonempty_commit_author:
  "text_nonempty db \<Longrightarrow> name b \<noteq> [] \<Longrightarrow> text_nonempty (commit_author b db)"
  by (auto simp: text_nonempty_def commit_author_def)

lemma text_nonempty_commit_post:
  "text_nonempty db \<Longrightarrow> title q \<noteq> [] \<Longrightarrow> text_nonempty (commit_post q db)"
  by (auto simp: text_nonempty_def commit_post_def)

lemma text_nonempty_step:
  assumes "text_nonempty db" and "request_text_nonempty r"
  shows "text_nonempty (step r db)"
proof (cases r)
  case (CreateAuthor author)
  show ?thesis
  proof (cases "find (\<lambda>a. email a = ac_email author) (authors db)")
    case None
    then show ?thesis
      using assms CreateAuthor create_author_ok [OF None]
      by (auto simp: text_nonempty_def add_author_def Let_def)
  next
    case (Some a)
    then show ?thesis using assms CreateAuthor by (simp add: create_author_def)
  qed
next
  case (UpdateAuthor i data)
  show ?thesis
  proof (cases rule: author_by_id_cases [of i db])
    case Overflow
    then show ?thesis using assms UpdateAuthor by (simp add: update_author_def)
  next
    case None
    then show ?thesis using assms UpdateAuthor by (simp add: update_author_def)
  next
    case (Some a)
    have na: "name a \<noteq> []"
      using assms(1) author_by_id_Some [OF Some] by (auto simp: text_nonempty_def)
    show ?thesis
    proof (cases "\<exists>x. au_email data = Some x \<and>
                  (\<exists>b \<in> set (authors db). email b = x \<and> a_id b \<noteq> i)")
      case True
      then obtain x where "au_email data = Some x"
        "\<exists>b \<in> set (authors db). email b = x \<and> a_id b \<noteq> i" by blast
      then have "update_author i data db = (db, Inl (HTTPException 400 ''Email already in use''))"
        using Some by (intro update_author_conflict)
      then show ?thesis using assms UpdateAuthor by simp
    next
      case False
      define b where "b = a\<lparr>name := (case au_name data of None \<Rightarrow> name a | Some n \<Rightarrow> n),
                email := (case au_email data of None \<Rightarrow> email a | Some e \<Rightarrow> e)\<rparr>"
      have "find (\<lambda>r. email r = x \<and> a_id r \<noteq> i) (authors db) = None"
        if "au_email data = Some x" for x
        using False that by (auto simp: find_None_iff)
      then have eq: "update_author i data db = (commit_author b db, Inr b)"
        using Some b_def by (intro update_author_ok [where a = a]) simp_all
      have "name b \<noteq> []"
        using na assms(2) UpdateAuthor by (auto simp: b_def split: option.splits)
      then show ?thesis
        using eq UpdateAuthor text_nonempty_commit_author [OF assms(1)] by simp
    qed
  qed
next
  case (DeleteAuthor i)
  then show ?thesis using assms
    by (auto simp: delete_author_def delete_author_cascade_def text_nonempty_def
        split: option.splits sum.splits)
next
  case (CreatePost post)
  show ?thesis
  proof (cases rule: author_by_id_cases [of "pc_author_id post" db])
    case Overflow
    then show ?thesis using assms CreatePost by (simp add: create_post_def)
  next
    case None
    then show ?thesis using assms CreatePost by (simp add: create_post_def)
  next
    case (Some a)
    then show ?thesis
      using assms CreatePost create_post_ok [OF Some]
      by (auto simp: text_nonempty_def add_post_def Let_def)
  qed
next
  case (UpdatePost k pdata)
  show ?thesis
  proof (cases rule: post_by_id_cases [of k db])
    case Overflow
    then show ?thesis using assms UpdatePost by (simp add: update_post_def)
  next
    case None
    then show ?thesis using assms UpdatePost by (simp add: update_post_def)
  next
    case (Some p)
    define q where "q = p\<lparr>title := (case pu_title pdata of None \<Rightarrow> title p | Some t \<Rightarrow> t),
                content := (case pu_content pdata of None \<Rightarrow> content p | Some c \<Rightarrow> c)\<rparr>"
    have "title p \<noteq> []"
      using assms(1) post_by_id_Some [OF Some] by (auto simp: text_nonempty_def)
    then have "title q \<noteq> []"
      using assms(2) UpdatePost by (auto simp: q_def split: option.splits)
    then show ?thesis
      using update_post_ok [OF Some q_def] UpdatePost text_nonempty_commit_post [OF assms(1)]
      by simp
  qed
next
  case (DeletePost k)
  then show ?thesis using assms
    by (auto simp: delete_post_def delete_post_row_def text_nonempty_def
        split: option.splits sum.splits)
qed (use assms in \<open>simp_all add: read_only\<close>)

lemma text_nonempty_run:
  "text_nonempty db \<Longrightarrow> \<forall>r \<in> set rs. request_text_nonempty r \<Longrightarrow> text_nonempty (run rs db)"
  unfolding run_def by (induction rs arbitrary: db) (simp_all add: text_nonempty_step)

text \<open>Unfolding the handlers and the gateway on a concrete store.\<close>

lemmas gateway_defs = next_id_def author_by_id_def post_by_id_def add_author_def add_post_def
  commit_author_def commit_post_def delete_author_cascade_def delete_post_row_def
  refresh_author_def refresh_post_def post_out_def empty_store_def Let_def
  sqlite_int_def author_row_def post_row_def

lemmas handler_defs = create_author_def list_authors_def get_author_def update_author_def
  delete_author_def create_post_def list_posts_def get_post_def update_post_def
  delete_post_def get_author_posts_def run_def

section \<open>Properties of the service\<close>

subsection \<open>Referential integrity\<close>

text \<open>
  C2: in every store reached from the empty store by any sequence of requests, every stored
  post's \<^verbatim>\<open>author_id\<close> is the id of a stored author. (\<^verbatim>\<open>create_post\<close> inserts only after
  finding the author, \<^verbatim>\<open>delete_author\<close> removes the author's posts with the author, and
  \<^verbatim>\<open>update_post\<close> assigns \<^verbatim>\<open>title\<close> and \<^verbatim>\<open>content\<close> only.)
\<close>

theorem post_author_always_live:
  "\<forall>p \<in> set (posts (run rs empty_store)).
     \<exists>a \<in> set (authors (run rs empty_store)). a_id a = author_id p"
  using wf_run [OF wf_empty, of rs] by (simp add: wf_store_def fk_ok_def)

theorem post_author_always_live_witness:
  "posts (run [CreateAuthor \<lparr>ac_name = ''Ada'', ac_email = ''ada@x.io''\<rparr>,
               CreateAuthor \<lparr>ac_name = ''Bob'', ac_email = ''bob@x.io''\<rparr>,
               CreatePost \<lparr>pc_title = ''Hi'', pc_content = ''World'', pc_author_id = 1\<rparr>,
               CreatePost \<lparr>pc_title = ''Yo'', pc_content = ''There'', pc_author_id = 2\<rparr>,
               CreatePost \<lparr>pc_title = ''No'', pc_content = ''Author'', pc_author_id = 7\<rparr>,
               UpdatePost 2 \<lparr>pu_title = Some ''Hey'', pu_content = None\<rparr>,
               DeleteAuthor 1] empty_store)
     = [\<lparr>p_id = 2, title = ''Hey'', content = ''There'', author_id = 2\<rparr>]
   \<and> (\<exists>a \<in> set (authors (run
              [CreateAuthor \<lparr>ac_name = ''Ada'', ac_email = ''ada@x.io''\<rparr>,
               CreateAuthor \<lparr>ac_name = ''Bob'', ac_email = ''bob@x.io''\<rparr>,
               CreatePost \<lparr>pc_title = ''Hi'', pc_content = ''World'', pc_author_id = 1\<rparr>,
               CreatePost \<lparr>pc_title = ''Yo'', pc_content = ''There'', pc_author_id = 2\<rparr>,
               CreatePost \<lparr>pc_title = ''No'', pc_content = ''Author'', pc_author_id = 7\<rparr>,
               UpdatePost 2 \<lparr>pu_title = Some ''Hey'', pu_content = None\<rparr>,
               DeleteAuthor 1] empty_store)). a_id a = 2)"
  using post_author_always_live
    [of "[CreateAuthor \<lparr>ac_name = ''Ada'', ac_email = ''ada@x.io''\<rparr>,
          CreateAuthor \<lparr>ac_name = ''Bob'', ac_email = ''bob@x.io''\<rparr>,
          CreatePost \<lparr>pc_title = ''Hi'', pc_content = ''World'', pc_author_id = 1\<rparr>,
          CreatePost \<lparr>pc_title = ''Yo'', pc_content = ''There'', pc_author_id = 2\<rparr>,
          CreatePost \<lparr>pc_title = ''No'', pc_content = ''Author'', pc_author_id = 7\<rparr>,
          UpdatePost 2 \<lparr>pu_title = Some ''Hey'', pu_content = None\<rparr>,
          DeleteAuthor 1]"]
  by (simp add: handler_defs gateway_defs)

subsection \<open>Reads\<close>

text \<open>
  C10: the five read handlers (list authors, get author, list posts with or without a
  filter, get post, list an author's posts) return the store they were given, whether they
  succeed or raise the 404.
\<close>

theorem reads_leave_store_unchanged:
  "fst (list_authors db) = db \<and> fst (get_author i db) = db \<and> fst (list_posts f db) = db \<and>
   fst (get_post j db) = db \<and> fst (get_author_posts k db) = db"
  by (simp add: read_only)

subsection \<open>Deleting an author\<close>




subsection \<open>Creating a post\<close>




subsection \<open>Listing posts\<close>







subsection \<open>Unique e-mail\<close>



subsection \<open>Partial updates\<close>




subsection \<open>Reporting failures\<close>

text \<open>
  C8, as stated, fails: the claim is that failures of two different kinds always carry
  different status codes. A Conflict raised by \<^verbatim>\<open>create_author\<close> and a ValidationError
  raised by \<^verbatim>\<open>create_post\<close> both carry the status 400.
\<close>

theorem conflict_and_validation_share_status:
  "snd (create_author \<lparr>ac_name = ''Eve'', ac_email = ''ada@x.io''\<rparr>
          \<lparr>authors = [\<lparr>a_id = 1, name = ''Ada'', email = ''ada@x.io''\<rparr>], posts = []\<rparr>)
     = Inl (HTTPException 400 ''Email already in use'')
   \<and> snd (create_post \<lparr>pc_title = ''Hi'', pc_content = ''World'', pc_author_id = 7\<rparr>
          \<lparr>authors = [\<lparr>a_id = 1, name = ''Ada'', email = ''ada@x.io''\<rparr>], posts = []\<rparr>)
     = Inl (HTTPException 400 ''Author does not exist'')
   \<and> HTTPException 400 ''Email already in use'' \<in> set (raised_as Conflict)
   \<and> HTTPException 400 ''Author does not exist'' \<in> set (raised_as ValidationError)
   \<and> Conflict \<noteq> ValidationError
   \<and> status_code (HTTPException 400 ''Email already in use'')
       = status_code (HTTPException 400 ''Author does not exist'')"
  by (simp add: handler_defs gateway_defs)

text \<open>
  C8, amended: two failures of different kinds always differ in their detail message, and
  they differ in their status code exactly when one of them is a NotFound (404 against 400);
  Conflict and ValidationError share the status 400. (By \<open>handlers_raise\<close>, the
  exceptions of \<open>raised_as\<close> are all a handler ever raises for parameters in the 64-bit
  range, each for its own kind; out of that range the \<open>OverflowError\<close> is none of the
  three kinds.)
\<close>

theorem failure_kinds_distinguished:
  "k1 \<noteq> k2 \<Longrightarrow> e1 \<in> set (raised_as k1) \<Longrightarrow> e2 \<in> set (raised_as k2) \<Longrightarrow>
   detail e1 \<noteq> detail e2 \<and>
   (status_code e1 \<noteq> status_code e2 \<longleftrightarrow> k1 = NotFound \<or> k2 = NotFound)"
  by (cases k1; cases k2) auto

theorem failure_kinds_distinguished_witness:
  "NotFound \<noteq> Conflict
   \<and> HTTPException 404 ''Post not found'' \<in> set (raised_as NotFound)
   \<and> HTTPException 400 ''Email already in use'' \<in> set (raised_as Conflict)
   \<and> detail (HTTPException 404 ''Post not found'')
       \<noteq> detail (HTTPException 400 ''Email already in use'')
   \<and> status_code (HTTPException 404 ''Post not found'')
       \<noteq> status_code (HTTPException 400 ''Email already in use'')"
  using failure_kinds_distinguished [of NotFound Conflict
      "HTTPException 404 ''Post not found''" "HTTPException 400 ''Email already in use''"]
  by simp

subsection \<open>Empty names and titles\<close>

text \<open>
  C9, as stated, fails: the claim is that no reachable store holds an author with an empty
  name or a post with an empty title. The handlers check neither, and store the empty string
  as given.
\<close>

theorem empty_name_and_title_are_stored:
  "run [CreateAuthor \<lparr>ac_name = '''', ac_email = ''ada@x.io''\<rparr>,
        CreatePost \<lparr>pc_title = '''', pc_content = ''World'', pc_author_id = 1\<rparr>] empty_store
   = \<lparr>authors = [\<lparr>a_id = 1, name = '''', email = ''ada@x.io''\<rparr>],
      posts = [\<lparr>p_id = 1, title = '''', content = ''World'', author_id = 1\<rparr>]\<rparr>
   \<and> \<not> text_nonempty (run [CreateAuthor \<lparr>ac_name = '''', ac_email = ''ada@x.io''\<rparr>,
        CreatePost \<lparr>pc_title = '''', pc_content = ''World'', pc_author_id = 1\<rparr>] empty_store)"
  by (simp add: handler_defs gateway_defs text_nonempty_def)

text \<open>
  C9, amended: in every store reached from the empty store by requests that supply no empty
  name and no empty title, every stored author's name and every stored post's title is
  non-empty.
\<close>

theorem nonempty_text_kept:
  "\<forall>r \<in> set rs. request_text_nonempty r \<Longrightarrow> text_nonempty (run rs empty_store)"
  using text_nonempty_run [of empty_store rs]
  by (simp add: text_nonempty_def empty_store_def)

theorem nonempty_text_kept_witness:
  "request_text_nonempty (CreateAuthor \<lparr>ac_name = ''Ada'', ac_email = ''ada@x.io''\<rparr>)
   \<and> request_text_nonempty
         (CreatePost \<lparr>pc_title = ''Hi'', pc_content = '''', pc_author_id = 1\<rparr>)
   \<and> request_text_nonempty (UpdateAuthor 1 \<lparr>au_name = Some ''Ada L'', au_email = None\<rparr>)
   \<and> text_nonempty (run [CreateAuthor \<lparr>ac_name = ''Ada'', ac_email = ''ada@x.io''\<rparr>,
               CreatePost \<lparr>pc_title = ''Hi'', pc_content = '''', pc_author_id = 1\<rparr>,
               UpdateAuthor 1 \<lparr>au_name = Some ''Ada L'', au_email = None\<rparr>] empty_store)
   \<and> authors (run [CreateAuthor \<lparr>ac_name = ''Ada'', ac_email = ''ada@x.io''\<rparr>,
               CreatePost \<lparr>pc_title = ''Hi'', pc_content = '''', pc_author_id = 1\<rparr>,
               UpdateAuthor 1 \<lparr>au_name = Some ''Ada L'', au_email = None\<rparr>] empty_store)
     = [\<lparr>a_id = 1, name = ''Ada L'', email = ''ada@x.io''\<rparr>]"
  using nonempty_text_kept [of "[CreateAuthor \<lparr>ac_name = ''Ada'', ac_email = ''ada@x.io''\<rparr>,
               CreatePost \<lparr>pc_title = ''Hi'', pc_content = '''', pc_author_id = 1\<rparr>,
               UpdateAuthor 1 \<lparr>au_name = Some ''Ada L'', au_email = None\<rparr>]"]
  by (simp add: handler_defs gateway_defs)

end
